theory Spec2Isabelle
  imports Main
begin

section \<open>Strings as the program uses them\<close>

text \<open>
  A Python string is modelled as a list of characters, each character a code point
  below 256. The helpers below are the string methods the program calls:
  \<^verbatim>\<open>str.strip()\<close>, \<^verbatim>\<open>str.split(sep)\<close>, \<^verbatim>\<open>str.lower()\<close>, \<^verbatim>\<open>str.replace(" ", x)\<close>
  and \<^verbatim>\<open>sep.join(xs)\<close>.
\<close>

definition is_space :: "char \<Rightarrow> bool" where
  "is_space c = (c \<in> set [CHR 0x09, CHR 0x0A, CHR 0x0B, CHR 0x0C, CHR 0x0D,
     CHR 0x1C, CHR 0x1D, CHR 0x1E, CHR 0x1F, CHR '' '', CHR 0x85, CHR 0xA0])"

definition strip :: "string \<Rightarrow> string" where
  "strip s = rev (dropWhile is_space (rev (dropWhile is_space s)))"

fun split_on :: "char \<Rightarrow> string \<Rightarrow> string list" where
  "split_on sep [] = [[]]"
| "split_on sep (c # cs) =
     (if c = sep then [] # split_on sep cs
      else (case split_on sep cs of
              [] \<Rightarrow> [[c]]
            | p # ps \<Rightarrow> (c # p) # ps))"

definition uppers :: string where
  "uppers = ''ABCDEFGHIJKLMNOPQRSTUVWXYZ'' @
     [CHR 0xC0, CHR 0xC1, CHR 0xC2, CHR 0xC3, CHR 0xC4, CHR 0xC5, CHR 0xC6, CHR 0xC7,
      CHR 0xC8, CHR 0xC9, CHR 0xCA, CHR 0xCB, CHR 0xCC, CHR 0xCD, CHR 0xCE, CHR 0xCF,
      CHR 0xD0, CHR 0xD1, CHR 0xD2, CHR 0xD3, CHR 0xD4, CHR 0xD5, CHR 0xD6, CHR 0xD8,
      CHR 0xD9, CHR 0xDA, CHR 0xDB, CHR 0xDC, CHR 0xDD, CHR 0xDE]"

definition lowers :: string where
  "lowers = ''abcdefghijklmnopqrstuvwxyz'' @
     [CHR 0xE0, CHR 0xE1, CHR 0xE2, CHR 0xE3, CHR 0xE4, CHR 0xE5, CHR 0xE6, CHR 0xE7,
      CHR 0xE8, CHR 0xE9, CHR 0xEA, CHR 0xEB, CHR 0xEC, CHR 0xED, CHR 0xEE, CHR 0xEF,
      CHR 0xF0, CHR 0xF1, CHR 0xF2, CHR 0xF3, CHR 0xF4, CHR 0xF5, CHR 0xF6, CHR 0xF8,
      CHR 0xF9, CHR 0xFA, CHR 0xFB, CHR 0xFC, CHR 0xFD, CHR 0xFE]"

definition lower_char :: "char \<Rightarrow> char" where
  "lower_char c = (case map_of (zip uppers lowers) c of Some l \<Rightarrow> l | None \<Rightarrow> c)"

definition lower :: "string \<Rightarrow> string" where
  "lower s = map lower_char s"

definition remove_spaces :: "string \<Rightarrow> string" where
  "remove_spaces s = filter (\<lambda>c. c \<noteq> CHR '' '') s"

definition spaces_to_underscores :: "string \<Rightarrow> string" where
  "spaces_to_underscores s = map (\<lambda>c. if c = CHR '' '' then CHR ''_'' else c) s"

fun join :: "string \<Rightarrow> string list \<Rightarrow> string" where
  "join sep [] = []"
| "join sep [x] = x"
| "join sep (x # y # ys) = x @ sep @ join sep (y # ys)"

section \<open>Configuration\<close>

definition COMBINED_OUTPUT_PATH :: string where
  "COMBINED_OUTPUT_PATH = ''hardwareOutput.csv''"

definition OUTPUT_DIR :: string where
  "OUTPUT_DIR = ''out''"

definition SENDER_EMAIL :: string where
  "SENDER_EMAIL = ''noreply@example.com''"

definition RECIPIENT_DOMAIN :: string where
  "RECIPIENT_DOMAIN = ''example.com''"

definition EMAIL_SUBJECT :: string where
  "EMAIL_SUBJECT = ''IT Equipment Return (Offboarding)''"

section \<open>Helpers of the directive loader and the dispatcher\<close>

text \<open>
  \<^verbatim>\<open>_split_emails\<close>: the loop over the separators \<^verbatim>\<open>(";", ",")\<close> stops at the first
  one that occurs in the raw string; when none occurs \<^verbatim>\<open>parts\<close> stays empty and the
  whole trimmed string is the only part.
\<close>

fun find_parts :: "char list \<Rightarrow> string \<Rightarrow> string list" where
  "find_parts [] raw = []"
| "find_parts (sep # seps) raw =
     (if sep \<in> set raw then map strip (split_on sep raw) else find_parts seps raw)"

definition split_emails :: "string \<Rightarrow> string list" where
  "split_emails raw =
     (if raw = [] then []
      else let parts = find_parts [CHR '';'', CHR '',''] raw;
               parts' = (if parts = [] then [strip raw] else parts)
           in filter (\<lambda>p. p \<noteq> []) parts')"

text \<open>The splitter as the specification words it, to be compared with the code.\<close>

definition split_emails_spec :: "string \<Rightarrow> string list" where
  "split_emails_spec raw =
     filter (\<lambda>p. p \<noteq> [])
       (if CHR '';'' \<in> set raw then map strip (split_on (CHR '';'') raw)
        else if CHR '','' \<in> set raw then map strip (split_on (CHR '','') raw)
        else [strip raw])"

definition build_recipient_email :: "string \<Rightarrow> string \<Rightarrow> string \<Rightarrow> string" where
  "build_recipient_email given sur domain =
     (let local_part = remove_spaces (lower (given @ ''.'' @ sur))
      in local_part @ ''@'' @ domain)"

section \<open>The directive loader\<close>

datatype error =
    ValueError string
  | OSError string
  | EmptyDataError
  | ParserError
  | DatabaseError
  | IllegalCharacterError
  | SMTPConnectError
  | SMTPException
  | SMTPServerDisconnected
  | SMTPResponseException

type_synonym employee = "string \<times> string \<times> string list"

text \<open>
  The input file is taken as the records \<^verbatim>\<open>csv.reader\<close> yields from it, the first one
  being the header. \<^verbatim>\<open>csv.DictReader\<close> builds each row's dictionary from
  \<^verbatim>\<open>zip(fieldnames, row)\<close>, gives the keys of a short row the value \<^verbatim>\<open>None\<close>, and
  skips the empty records. A later entry for the same key overrides an earlier one.
\<close>

fun dict_row :: "string list \<Rightarrow> string list \<Rightarrow> (string \<times> string option) list" where
  "dict_row [] vs = []"
| "dict_row (k # ks) [] = (k, None) # dict_row ks []"
| "dict_row (k # ks) (v # vs) = (k, Some v) # dict_row ks vs"

definition row_get :: "(string \<times> string option) list \<Rightarrow> string \<Rightarrow> string option" where
  "row_get d k = (case map_of (rev d) k of Some v \<Rightarrow> v | None \<Rightarrow> None)"

definition or_empty :: "string option \<Rightarrow> string" where
  "or_empty v = (case v of Some s \<Rightarrow> s | None \<Rightarrow> [])"

definition cc_candidates :: "string list" where
  "cc_candidates = [''Email'', ''EmailAddress'', ''CC'', ''Cc'']"

definition find_cc_col :: "string set \<Rightarrow> string option" where
  "find_cc_col fieldnames = find (\<lambda>c. c \<in> fieldnames) cc_candidates"

fun employees_of_rows :: "string list \<Rightarrow> string \<Rightarrow> string list list \<Rightarrow> employee list" where
  "employees_of_rows header cc_col [] = []"
| "employees_of_rows header cc_col (row # rows) =
     (let d = dict_row header row;
          sur = strip (or_empty (row_get d ''Surname''));
          given = strip (or_empty (row_get d ''GivenName''));
          raw_cc = strip (or_empty (row_get d cc_col))
      in if given = [] \<or> sur = [] then employees_of_rows header cc_col rows
         else (given, sur, split_emails raw_cc) # employees_of_rows header cc_col rows)"

definition header_of :: "string list list \<Rightarrow> string list" where
  "header_of tbl = (case tbl of [] \<Rightarrow> [] | h # _ \<Rightarrow> h)"

definition read_employees :: "string list list \<Rightarrow> error + employee list" where
  "read_employees tbl =
     (let header = header_of tbl;
          fieldnames = set (map strip header);
          missing = filter (\<lambda>r. r \<notin> fieldnames) [''GivenName'', ''Surname'']
      in if missing \<noteq> [] then
           Inl (ValueError (''Input CSV missing required column(s): '' @ join '', '' missing))
         else (case find_cc_col fieldnames of
                 None \<Rightarrow> Inl (ValueError (''Input CSV missing the third column for CC email. '' @
                          ''Please include one of: 'Email', 'EmailAddress', 'CC', or 'Cc'.''))
               | Some cc_col \<Rightarrow>
                   Inr (employees_of_rows header cc_col (filter (\<lambda>r. r \<noteq> []) (tl tbl)))))"



definition is_error :: "'e + 'a \<Rightarrow> bool" where
  "is_error r = (case r of Inl _ \<Rightarrow> True | Inr _ \<Rightarrow> False)"

section \<open>The world outside the program, and the state of a run\<close>

text \<open>
  The database, the file system's refusals, the spreadsheet libraries and the mail relay
  are outside the program. A \<open>world\<close> fixes how they answer: the records read from the
  input file (or the error opening it), whether the database accepts the connection,
  what a query for a name returns, which paths cannot be opened for writing, which
  cannot be removed, and how the relay behaves at each connection, counted from 0 in the
  order the program asks for them.
  A database cell is \<open>None\<close> for NULL and otherwise the text \<^verbatim>\<open>str\<close> gives for it.

  A cell of a workbook is typed. What the table reader does with a table that is not
  regular (repeated or empty labels, records of another length than the header) and how
  it types a column that is not made of plain integers are the library's business: the
  world answers for both (\<open>pd_irregular\<close>, \<open>pd_retype\<close>).
\<close>

type_synonym db_row = "string option list"

datatype cell =
    IntCell int
  | TextCell string
  | EmptyCell
  | OtherCell string

text \<open>
  One connection to the relay: is it accepted; does the greeting get its answer (when
  it does not, the library has closed the socket); does the relay accept the message;
  is QUIT answered with 221 when the block is left.
\<close>

record smtp_script =
  connect_ok :: bool
  ehlo_ok :: bool
  sendmail_ok :: bool
  quit_ok :: bool

record world =
  input_file :: "error + string list list"
  db_connect_ok :: bool
  db_query :: "string \<Rightarrow> string \<Rightarrow> error + (string list \<times> db_row list)"
  write_fails :: "string \<Rightarrow> bool"
  remove_fails :: "string \<Rightarrow> bool"
  pd_irregular :: "string list list \<Rightarrow> error + (string list \<times> cell list list)"
  pd_retype :: "string list \<Rightarrow> nat \<Rightarrow> cell"
  smtp :: "nat \<Rightarrow> smtp_script"

text \<open>
  A table file holds the records written to it. A workbook holds its sheet name, the
  column labels and the rows of typed cells. \<open>Garbled\<close> is a file that is neither.
\<close>

datatype file_content =
    Csv "string list list"
  | Xlsx string "string list" "cell list list"
  | Garbled

datatype body =
    ReturnEquipment string string string
  | NothingFound string string

record message =
  msg_from :: string
  msg_to :: string
  msg_cc :: "string option"
  msg_subject :: string
  msg_body :: body
  msg_attachment_name :: string
  msg_attachment :: file_content

datatype out_line =
    NoValidEmployees
  | SentEmail string "string list" nat string
  | ErrorSending string error
  | NoRowsMatched
  | SavedRows nat

datatype event =
    DbConnect
  | DbQuery string string
  | DbClose
  | SmtpOpen
  | SmtpEhlo bool
  | SmtpSendmail string "string list" message
  | SmtpSendmailFailed string "string list"
  | SmtpClose
  | Print out_line

record state =
  files :: "string \<Rightarrow> file_content option"
  trace :: "event list"
  smtp_calls :: nat

definition emit :: "event \<Rightarrow> state \<Rightarrow> state" where
  "emit e s = s\<lparr>trace := trace s @ [e]\<rparr>"

definition write_file :: "string \<Rightarrow> file_content \<Rightarrow> state \<Rightarrow> state" where
  "write_file path f s = s\<lparr>files := (files s)(path \<mapsto> f)\<rparr>"

text \<open>Opening a file in append mode creates it when it is missing.\<close>

definition append_records :: "file_content option \<Rightarrow> string list list \<Rightarrow> file_content" where
  "append_records old new =
     (case old of
        None \<Rightarrow> Csv new
      | Some (Csv t) \<Rightarrow> Csv (t @ new)
      | Some _ \<Rightarrow> Garbled)"

section \<open>Paths\<close>

text \<open>\<^verbatim>\<open>os.path.join\<close>, \<^verbatim>\<open>os.path.splitext\<close> and \<^verbatim>\<open>os.path.basename\<close> on POSIX paths.\<close>

definition path_join :: "string \<Rightarrow> string \<Rightarrow> string" where
  "path_join a b =
     (if b \<noteq> [] \<and> hd b = CHR ''/'' then b
      else if a = [] \<or> last a = CHR ''/'' then a @ b
      else a @ ''/'' @ b)"

definition splitext :: "string \<Rightarrow> string \<times> string" where
  "splitext p =
     (let rname = takeWhile (\<lambda>c. c \<noteq> CHR ''/'') (rev p);
          rdir = dropWhile (\<lambda>c. c \<noteq> CHR ''/'') (rev p);
          rext = takeWhile (\<lambda>c. c \<noteq> CHR ''.'') rname;
          rstem = drop (Suc (length rext)) rname
      in if CHR ''.'' \<in> set rname \<and> filter (\<lambda>c. c \<noteq> CHR ''.'') rstem \<noteq> []
         then (rev rdir @ rev rstem, CHR ''.'' # rev rext)
         else (p, []))"

definition basename :: "string \<Rightarrow> string" where
  "basename p = rev (takeWhile (\<lambda>c. c \<noteq> CHR ''/'') (rev p))"

definition employee_csv_path :: "string \<Rightarrow> string \<Rightarrow> string" where
  "employee_csv_path given sur =
     (let safe_name = spaces_to_underscores (given @ ''_'' @ sur)
      in path_join OUTPUT_DIR (''hardware_'' @ safe_name @ ''.csv''))"

definition xlsx_path_of :: "string \<Rightarrow> string" where
  "xlsx_path_of csv_path = fst (splitext csv_path) @ ''.xlsx''"

section \<open>The report materializer\<close>

text \<open>
  The file system is a map from paths to contents. Directories are not modelled:
  \<^verbatim>\<open>os.makedirs\<close> is taken to succeed, and a write fails when the world refuses the path.
  The column widths that the conversion sets do not change what the workbook holds and
  are left out.
\<close>

definition render_row :: "db_row \<Rightarrow> string list" where
  "render_row row = map or_empty row"

definition write_employee_csv ::
  "world \<Rightarrow> string \<Rightarrow> string \<Rightarrow> string list \<Rightarrow> db_row list \<Rightarrow> state \<Rightarrow> (error + string) \<times> state" where
  "write_employee_csv w given sur col_names rows s =
     (let csv_path = employee_csv_path given sur
      in if write_fails w csv_path then (Inl (OSError csv_path), s)
         else (Inr csv_path, write_file csv_path (Csv (col_names # map render_row rows)) s))"

subsection \<open>Reading the table file back\<close>

text \<open>
  \<^verbatim>\<open>pandas.read_csv\<close> with its defaults, as documented. A record that is written as a
  blank line (no field, or one field of spaces and tabs) is skipped. The first record
  left is the header; when none is left there are no columns to parse. The reader types
  every column: a column whose cells are all plain runs of digits is read as integers,
  so that the text of such a cell is not kept (leading zeros are gone).
\<close>

definition blank_record :: "string list \<Rightarrow> bool" where
  "blank_record r =
     (case r of
        [] \<Rightarrow> True
      | [s] \<Rightarrow> s \<noteq> [] \<and> list_all (\<lambda>c. c = CHR '' '' \<or> c = CHR 0x09) s
      | _ \<Rightarrow> False)"

definition illegal_chars :: string where
  "illegal_chars =
     [CHR 0x00, CHR 0x01, CHR 0x02, CHR 0x03, CHR 0x04, CHR 0x05, CHR 0x06, CHR 0x07, CHR 0x08,
      CHR 0x0B, CHR 0x0C,
      CHR 0x0E, CHR 0x0F, CHR 0x10, CHR 0x11, CHR 0x12, CHR 0x13, CHR 0x14, CHR 0x15, CHR 0x16,
      CHR 0x17, CHR 0x18, CHR 0x19, CHR 0x1A, CHR 0x1B, CHR 0x1C, CHR 0x1D, CHR 0x1E, CHR 0x1F]"

definition illegal_char :: "char \<Rightarrow> bool" where
  "illegal_char c = (c \<in> set illegal_chars)"

definition control_char :: "char \<Rightarrow> bool" where
  "control_char c = (c \<in> set (illegal_chars @ [CHR 0x09, CHR 0x0A, CHR 0x0D]))"

text \<open>
  Labels that the reader takes as they are: at least one, no two equal, none empty,
  none with a control character or with surrounding whitespace.
\<close>

definition regular_labels :: "string list \<Rightarrow> bool" where
  "regular_labels labels =
     (labels \<noteq> [] \<and> distinct labels
      \<and> list_all (\<lambda>l. l \<noteq> [] \<and> \<not> list_ex control_char l \<and> strip l = l) labels)"

definition is_digit :: "char \<Rightarrow> bool" where
  "is_digit c = (c \<in> set ''0123456789'')"

definition is_int_literal :: "string \<Rightarrow> bool" where
  "is_int_literal s = (s \<noteq> [] \<and> length s \<le> 18 \<and> list_all is_digit s)"

definition digit_value :: "char \<Rightarrow> nat" where
  "digit_value c = length (takeWhile (\<lambda>d. d \<noteq> c) ''0123456789'')"

definition nat_of_digits :: "string \<Rightarrow> nat" where
  "nat_of_digits s = foldl (\<lambda>n c. 10 * n + digit_value c) 0 s"

definition column :: "nat \<Rightarrow> string list list \<Rightarrow> string list" where
  "column j d = map (\<lambda>r. r ! j) d"

definition typed_cell :: "world \<Rightarrow> string list \<Rightarrow> nat \<Rightarrow> cell" where
  "typed_cell w col i =
     (if col \<noteq> [] \<and> list_all is_int_literal col then IntCell (int (nat_of_digits (col ! i)))
      else pd_retype w col i)"

definition typed_rows :: "world \<Rightarrow> nat \<Rightarrow> string list list \<Rightarrow> cell list list" where
  "typed_rows w k d = map (\<lambda>i. map (\<lambda>j. typed_cell w (column j d) i) [0..<k]) [0..<length d]"

definition pd_read_csv :: "world \<Rightarrow> string list list \<Rightarrow> error + (string list \<times> cell list list)" where
  "pd_read_csv w t =
     (case filter (\<lambda>r. \<not> blank_record r) t of
        [] \<Rightarrow> Inl EmptyDataError
      | h # d \<Rightarrow>
          if regular_labels h \<and> list_all (\<lambda>r. length r = length h) d
          then Inr (h, typed_rows w (length h) d)
          else pd_irregular w (h # d))"

subsection \<open>Writing the workbook\<close>

text \<open>
  The workbook writer refuses a label or a text cell that holds one of the characters a
  workbook cannot hold; the file has been opened by then, and something is left at the
  path.
\<close>

definition cell_illegal :: "cell \<Rightarrow> bool" where
  "cell_illegal c = (case c of TextCell s \<Rightarrow> list_ex illegal_char s | _ \<Rightarrow> False)"

definition workbook_illegal :: "string list \<Rightarrow> cell list list \<Rightarrow> bool" where
  "workbook_illegal labels rows =
     (list_ex (list_ex illegal_char) labels \<or> list_ex (list_ex cell_illegal) rows)"

definition convert_csv_to_xlsx :: "world \<Rightarrow> string \<Rightarrow> state \<Rightarrow> (error + string) \<times> state" where
  "convert_csv_to_xlsx w csv_path s =
     (let xlsx_path = xlsx_path_of csv_path
      in case files s csv_path of
           None \<Rightarrow> (Inl (OSError csv_path), s)
         | Some (Csv t) \<Rightarrow>
             (case pd_read_csv w t of
                Inl e \<Rightarrow> (Inl e, s)
              | Inr (labels, rows) \<Rightarrow>
                  if write_fails w xlsx_path then (Inl (OSError xlsx_path), s)
                  else if workbook_illegal labels rows
                  then (Inl IllegalCharacterError, write_file xlsx_path Garbled s)
                  else (Inr xlsx_path, write_file xlsx_path (Xlsx ''Hardware'' labels rows) s))
         | Some _ \<Rightarrow> (Inl ParserError, s))"

text \<open>What a reader of the workbook gets as the text of a cell.\<close>

function show_nat :: "nat \<Rightarrow> string" where
  "show_nat n =
     (if n < 10 then [''0123456789'' ! n]
      else show_nat (n div 10) @ [''0123456789'' ! (n mod 10)])"
  by pat_completeness auto
termination
  by (relation "measure id") auto

definition show_int :: "int \<Rightarrow> string" where
  "show_int i = (if i < 0 then CHR ''-'' # show_nat (nat (- i)) else show_nat (nat i))"

definition cell_text :: "cell \<Rightarrow> string" where
  "cell_text c =
     (case c of IntCell i \<Rightarrow> show_int i | TextCell s \<Rightarrow> s | EmptyCell \<Rightarrow> [] | OtherCell s \<Rightarrow> s)"

subsection \<open>The combined audit file and the preview table\<close>

definition append_to_combined_csv ::
  "world \<Rightarrow> string list \<Rightarrow> db_row list \<Rightarrow> string \<Rightarrow> bool \<Rightarrow> state \<Rightarrow> (error + nat) \<times> state" where
  "append_to_combined_csv w col_names rows combined_path first_write s =
     (if rows = [] then
        (if first_write then
           (if write_fails w combined_path then (Inl (OSError combined_path), s)
            else (Inr 0, write_file combined_path (Csv [col_names]) s))
         else (Inr 0, s))
      else if write_fails w combined_path then (Inl (OSError combined_path), s)
      else if first_write then
        (Inr (length rows), write_file combined_path (Csv (col_names # map render_row rows)) s)
      else
        (Inr (length rows),
         write_file combined_path (append_records (files s combined_path) (map render_row rows)) s))"

definition replace_char :: "char \<Rightarrow> string \<Rightarrow> string \<Rightarrow> string" where
  "replace_char c r s = concat (map (\<lambda>x. if x = c then r else [x]) s)"

definition esc :: "string option \<Rightarrow> string" where
  "esc x = replace_char (CHR ''>'') ''&gt;''
             (replace_char (CHR ''<'') ''&lt;''
               (replace_char (CHR ''&'') ''&amp;'' (or_empty x)))"

definition build_html_table :: "string list \<Rightarrow> db_row list \<Rightarrow> string" where
  \<open>build_html_table col_names rows =
     (let thead = concat (map (\<lambda>c.
            ''<th style="background:#f2f2f2; padding:6px; border:1px solid #ccc; text-align:left;">''
              @ esc (Some c) @ ''</th>'') col_names);
          tbody_rows = map (\<lambda>r. ''<tr>'' @ concat (map (\<lambda>v.
            ''<td style="padding:6px; border:1px solid #ccc;">'' @ esc v @ ''</td>'') r) @ ''</tr>'') rows
      in ''<table style="border-collapse:collapse; width:100%;">''
         @ ''<thead><tr>'' @ thead @ ''</tr></thead>''
         @ ''<tbody>'' @ concat tbody_rows @ ''</tbody>''
         @ ''</table>'')\<close>

section \<open>The notification dispatcher\<close>

text \<open>
  \<^verbatim>\<open>send_email_with_attachment\<close>. The attachment is read before any connection is made.
  The connection is a scoped resource. A greeting that raises is swallowed, but the
  library has then closed the socket, and the \<^verbatim>\<open>sendmail\<close> that follows raises
  \<^verbatim>\<open>SMTPServerDisconnected\<close>. When the block is left the library sends QUIT if the socket
  is still open, and raises \<^verbatim>\<open>SMTPResponseException\<close> when the answer is not 221; that
  exception replaces one that \<^verbatim>\<open>sendmail\<close> may have raised.
\<close>

definition send_email_with_attachment ::
  "world \<Rightarrow> string \<Rightarrow> string \<Rightarrow> body \<Rightarrow> string \<Rightarrow> string list \<Rightarrow> state \<Rightarrow> (error + unit) \<times> state" where
  "send_email_with_attachment w to_email subject html_body attachment_path cc_emails s =
     (case files s attachment_path of
        None \<Rightarrow> (Inl (OSError attachment_path), s)
      | Some f \<Rightarrow>
          (let msg = \<lparr>msg_from = SENDER_EMAIL, msg_to = to_email,
                      msg_cc = (if cc_emails \<noteq> [] then Some (join '', '' cc_emails) else None),
                      msg_subject = subject, msg_body = html_body,
                      msg_attachment_name = basename attachment_path, msg_attachment = f\<rparr>;
               recipients = to_email # cc_emails;
               script = smtp w (smtp_calls s);
               s1 = s\<lparr>smtp_calls := Suc (smtp_calls s)\<rparr>
           in if \<not> connect_ok script then (Inl SMTPConnectError, s1)
              else
                (let s2 = emit SmtpOpen s1;
                     s3 = emit (SmtpEhlo (ehlo_ok script)) s2;
                     sent = (if \<not> ehlo_ok script then Inl SMTPServerDisconnected
                             else if \<not> sendmail_ok script then Inl SMTPException
                             else Inr ());
                     s4 = (case sent of
                             Inr u \<Rightarrow> emit (SmtpSendmail SENDER_EMAIL recipients msg) s3
                           | Inl e \<Rightarrow> emit (SmtpSendmailFailed SENDER_EMAIL recipients) s3);
                     s5 = emit SmtpClose s4
                 in if ehlo_ok script \<and> \<not> quit_ok script then (Inl SMTPResponseException, s5)
                    else (sent, s5))))"

section \<open>The pipeline orchestrator\<close>

definition table_html_of :: "string list \<Rightarrow> db_row list \<Rightarrow> string" where
  "table_html_of col_names rows = (if rows \<noteq> [] then build_html_table col_names rows else [])"

definition body_html_of :: "string \<Rightarrow> string \<Rightarrow> db_row list \<Rightarrow> string \<Rightarrow> body" where
  "body_html_of given sur rows table_html =
     (if rows \<noteq> [] then ReturnEquipment given sur table_html else NothingFound given sur)"

text \<open>
  The body of the loop over the employees, for one employee: the running total and the
  first-write flag go in and come out. An error of the query or of the three writes is
  not handled here and leaves the loop; an error of the send is caught and printed.
\<close>

definition process_employee ::
  "world \<Rightarrow> employee \<Rightarrow> nat \<times> bool \<Rightarrow> state \<Rightarrow> (error + nat \<times> bool) \<times> state" where
  "process_employee w emp acc s =
     (case emp of (given, sur, cc_emails) \<Rightarrow>
      case acc of (total_written, first_write_combined) \<Rightarrow>
      case db_query w given sur of
        Inl e \<Rightarrow> (Inl e, s)
      | Inr (col_names, rows) \<Rightarrow>
      let s0 = emit (DbQuery given sur) s in
      case write_employee_csv w given sur col_names rows s0 of
        (Inl e, s1) \<Rightarrow> (Inl e, s1)
      | (Inr csv_path, s1) \<Rightarrow>
      case convert_csv_to_xlsx w csv_path s1 of
        (Inl e, s2) \<Rightarrow> (Inl e, s2)
      | (Inr xlsx_path, s2) \<Rightarrow>
      case append_to_combined_csv w col_names rows COMBINED_OUTPUT_PATH first_write_combined s2 of
        (Inl e, s3) \<Rightarrow> (Inl e, s3)
      | (Inr written, s3) \<Rightarrow>
      let first_write_combined' = (if written > 0 \<and> first_write_combined then False
                                   else first_write_combined);
          total_written' = total_written + written;
          table_html = table_html_of col_names rows;
          to_email = build_recipient_email given sur RECIPIENT_DOMAIN;
          body_html = body_html_of given sur rows table_html
      in case send_email_with_attachment w to_email EMAIL_SUBJECT body_html xlsx_path cc_emails s3 of
           (Inr u, s4) \<Rightarrow>
             (Inr (total_written', first_write_combined'),
              emit (Print (SentEmail to_email cc_emails (length rows) xlsx_path)) s4)
         | (Inl mail_ex, s4) \<Rightarrow>
             (Inr (total_written', first_write_combined'),
              emit (Print (ErrorSending to_email mail_ex)) s4))"

fun employee_loop ::
  "world \<Rightarrow> employee list \<Rightarrow> nat \<times> bool \<Rightarrow> state \<Rightarrow> (error + nat \<times> bool) \<times> state" where
  "employee_loop w [] acc s = (Inr acc, s)"
| "employee_loop w (emp # emps) acc s =
     (case process_employee w emp acc s of
        (Inl e, s') \<Rightarrow> (Inl e, s')
      | (Inr acc', s') \<Rightarrow> employee_loop w emps acc' s')"

text \<open>
  \<^verbatim>\<open>main\<close>, started on the files \<open>fs\<close> with an empty trace. An old combined file is
  removed before the database is connected, outside the \<^verbatim>\<open>try\<close> block; the connection to
  the database is made only when there is an employee to process, and the \<^verbatim>\<open>finally\<close>
  clause closes it however the loop is left.
\<close>

definition main :: "world \<Rightarrow> (string \<Rightarrow> file_content option) \<Rightarrow> (error + unit) \<times> state" where
  "main w fs =
     (let s0 = \<lparr>files = fs, trace = [], smtp_calls = 0\<rparr>
      in case input_file w of
           Inl e \<Rightarrow> (Inl e, s0)
         | Inr tbl \<Rightarrow>
         case read_employees tbl of
           Inl e \<Rightarrow> (Inl e, s0)
         | Inr employees \<Rightarrow>
         if employees = [] then (Inr (), emit (Print NoValidEmployees) s0)
         else if files s0 COMBINED_OUTPUT_PATH \<noteq> None \<and> remove_fails w COMBINED_OUTPUT_PATH
         then (Inl (OSError COMBINED_OUTPUT_PATH), s0)
         else
           let s1 = s0\<lparr>files := (files s0)(COMBINED_OUTPUT_PATH := None)\<rparr>
           in if \<not> db_connect_ok w then (Inl DatabaseError, s1)
              else
                let s2 = emit DbConnect s1
                in case employee_loop w employees (0, True) s2 of
                     (Inl e, s3) \<Rightarrow> (Inl e, emit DbClose s3)
                   | (Inr (total_written, first), s3) \<Rightarrow>
                       (Inr (),
                        emit DbClose
                          (emit (Print (if total_written = 0 then NoRowsMatched
                                        else SavedRows total_written)) s3)))"

section \<open>Notions used to state the properties\<close>

text \<open>
  The discipline of the mail connection over a trace: \<open>smtp_scope opened evs\<close> runs over
  the events with the flag "a connection is open", and is \<open>None\<close> when a connection is
  opened while one is open, when one is closed or used while none is open, or when
  anything else happens while one is open. Otherwise it is the flag at the end.
\<close>

fun smtp_scope :: "bool \<Rightarrow> event list \<Rightarrow> bool option" where
  "smtp_scope opened [] = Some opened"
| "smtp_scope opened (e # es) =
     (case e of
        SmtpOpen \<Rightarrow> if opened then None else smtp_scope True es
      | SmtpClose \<Rightarrow> if opened then smtp_scope False es else None
      | SmtpEhlo b \<Rightarrow> if opened then smtp_scope opened es else None
      | SmtpSendmail a r m \<Rightarrow> if opened then smtp_scope opened es else None
      | SmtpSendmailFailed a r \<Rightarrow> if opened then smtp_scope opened es else None
      | _ \<Rightarrow> if opened then None else smtp_scope opened es)"

definition loop_events :: "event list \<Rightarrow> bool" where
  "loop_events evs =
     (smtp_scope False evs = Some False \<and> DbConnect \<notin> set evs \<and> DbClose \<notin> set evs)"

text \<open>
  What the gateway answers for an employee, the rows that answer contributes to the
  combined audit file, and the condition that every query of a batch answers with the
  same column list (the query text is fixed).
\<close>

definition query_of :: "world \<Rightarrow> employee \<Rightarrow> error + (string list \<times> db_row list)" where
  "query_of w emp = (case emp of (given, sur, cc) \<Rightarrow> db_query w given sur)"

definition audit_rows :: "world \<Rightarrow> employee \<Rightarrow> string list list" where
  "audit_rows w emp = (case query_of w emp of Inr (cols, rows) \<Rightarrow> map render_row rows | Inl e \<Rightarrow> [])"

definition same_columns :: "world \<Rightarrow> string list \<Rightarrow> employee list \<Rightarrow> bool" where
  "same_columns w cols emps =
     list_all (\<lambda>emp. case query_of w emp of Inr (c, rows) \<Rightarrow> c = cols | Inl e \<Rightarrow> False) emps"

text \<open>
  The lines a run has printed, in order, and how many of them report the outcome of a
  send: one is printed for every employee whose send was attempted.
\<close>

definition printed :: "event list \<Rightarrow> out_line list" where
  "printed evs = concat (map (\<lambda>e. case e of Print l \<Rightarrow> [l] | _ \<Rightarrow> []) evs)"

definition is_send_line :: "out_line \<Rightarrow> bool" where
  "is_send_line l = (case l of SentEmail t c n p \<Rightarrow> True | ErrorSending t e \<Rightarrow> True | _ \<Rightarrow> False)"

definition send_lines :: "event list \<Rightarrow> nat" where
  "send_lines evs = length (filter is_send_line (printed evs))"

text \<open>What a reader gets back from a workbook: the labels and the text of every cell.\<close>

definition read_back :: "file_content option \<Rightarrow> (string list \<times> string list list) option" where
  "read_back f =
     (case f of
        Some (Xlsx sheet labels rows) \<Rightarrow> Some (labels, map (map cell_text) rows)
      | _ \<Rightarrow> None)"

section \<open>A batch of three employees\<close>

text \<open>
  Three employees are read from the input; only the second has asset rows. In these
  worlds a column that is not made of integers keeps its text, an empty cell apart. The
  worlds differ in what fails.
\<close>

definition scenario_input :: "string list list" where
  "scenario_input =
     [[''Surname'', ''GivenName'', ''Email''],
      [''Lee'', ''Ann'', ''boss@x.com''],
      [''Ray'', ''Bob'', ''boss@x.com; hr@x.com''],
      [''Fox'', ''Cy'', '''']]"

definition scenario_columns :: "string list" where
  "scenario_columns = [''Description'', ''SerialNo'']"

definition scenario_query :: "string \<Rightarrow> string \<Rightarrow> error + (string list \<times> db_row list)" where
  "scenario_query given sur =
     (if given = ''Bob'' then Inr (scenario_columns, [[Some ''Laptop'', Some ''SN1''], [Some ''Dock'', None]])
      else Inr (scenario_columns, []))"

definition relay_ok :: smtp_script where
  "relay_ok = \<lparr>connect_ok = True, ehlo_ok = True, sendmail_ok = True, quit_ok = True\<rparr>"

definition keep_text :: "string list \<Rightarrow> nat \<Rightarrow> cell" where
  "keep_text col i = (if col ! i = [] then EmptyCell else TextCell (col ! i))"

definition world_ok :: world where
  "world_ok = \<lparr>input_file = Inr scenario_input, db_connect_ok = True, db_query = scenario_query,
                write_fails = (\<lambda>p. False), remove_fails = (\<lambda>p. False),
                pd_irregular = (\<lambda>t. Inl ParserError), pd_retype = keep_text,
                smtp = (\<lambda>n. relay_ok)\<rparr>"

definition world_second_send_fails :: world where
  "world_second_send_fails = world_ok\<lparr>smtp := (\<lambda>n. relay_ok\<lparr>sendmail_ok := (n \<noteq> 1)\<rparr>)\<rparr>"

definition world_csv_write_fails :: world where
  "world_csv_write_fails = world_ok\<lparr>write_fails := (\<lambda>p. p = ''out/hardware_Ann_Lee.csv'')\<rparr>"

definition after_one_send :: state where
  "after_one_send = \<lparr>files = Map.empty, trace = [], smtp_calls = 1\<rparr>"

definition no_files :: state where
  "no_files = \<lparr>files = Map.empty, trace = [], smtp_calls = 0\<rparr>"

section \<open>Properties of the helpers\<close>

lemma split_on_not_Nil: "split_on sep s \<noteq> []"
  by (induction s) (auto split: list.splits)

lemma strip_Nil: "strip [] = []"
  by (simp add: strip_def)

text \<open>
  Claim C7. For every raw CC string the splitter splits on \<open>;\<close> when it is present, else
  on \<open>,\<close> when it is present, else takes the whole trimmed string as one address, and
  drops the empty tokens; the four examples of the specification come out as stated.
\<close>

theorem split_emails_refines_spec:
  "split_emails raw = split_emails_spec raw
   \<and> split_emails ''a@x.com;b@x.com'' = [''a@x.com'', ''b@x.com'']
   \<and> split_emails ''a@x.com, b@x.com'' = [''a@x.com'', ''b@x.com'']
   \<and> split_emails '''' = []
   \<and> split_emails ''a@x.com'' = [''a@x.com'']"
proof -
  have general: "split_emails raw = split_emails_spec raw"
  proof (cases "raw = []")
    case True
    then show ?thesis
      by (simp add: split_emails_def split_emails_spec_def strip_Nil)
  next
    case False
    then show ?thesis
      by (simp add: split_emails_def split_emails_spec_def Let_def split_on_not_Nil
          del: split_on.simps)
  qed
  have ex1: "split_emails ''a@x.com;b@x.com'' = [''a@x.com'', ''b@x.com'']"
    by (simp add: split_emails_def strip_def is_space_def)
  have ex2: "split_emails ''a@x.com, b@x.com'' = [''a@x.com'', ''b@x.com'']"
    by (simp add: split_emails_def strip_def is_space_def)
  have ex3: "split_emails '''' = []"
    by (simp add: split_emails_def)
  have ex4: "split_emails ''a@x.com'' = [''a@x.com'']"
    by (simp add: split_emails_def strip_def is_space_def)
  from general ex1 ex2 ex3 ex4 show ?thesis by blast
qed

lemma remove_spaces_append: "remove_spaces (a @ b) = remove_spaces a @ remove_spaces b"
  by (simp add: remove_spaces_def)

lemma lower_append: "lower (a @ b) = lower a @ lower b"
  by (simp add: lower_def)

lemma lower_dot: "lower ''.'' = ''.''"
  by (simp add: lower_def lower_char_def uppers_def lowers_def)

text \<open>
  Claim C8. The recipient address is the lowercased \<open>given.surname\<close> with every space
  removed, followed by \<open>@\<close> and the domain; no space is left in the local part, and the
  two examples of the specification come out as stated.
\<close>

theorem build_recipient_email_correct:
  "build_recipient_email given sur domain =
     remove_spaces (lower given) @ ''.'' @ remove_spaces (lower sur) @ ''@'' @ domain
   \<and> CHR '' '' \<notin> set (remove_spaces (lower (given @ ''.'' @ sur)))
   \<and> build_recipient_email ''Jane'' ''Doe'' ''example.com'' = ''jane.doe@example.com''
   \<and> build_recipient_email ''Jane Ann'' ''Doe'' ''example.com'' = ''janeann.doe@example.com''"
proof -
  have general: "build_recipient_email given sur domain =
      remove_spaces (lower given) @ ''.'' @ remove_spaces (lower sur) @ ''@'' @ domain"
    unfolding build_recipient_email_def Let_def lower_append remove_spaces_append lower_dot
    by (simp add: remove_spaces_def)
  have no_space: "CHR '' '' \<notin> set (remove_spaces (lower (given @ ''.'' @ sur)))"
    by (simp add: remove_spaces_def)
  have ex1: "build_recipient_email ''Jane'' ''Doe'' ''example.com'' = ''jane.doe@example.com''"
    by (simp add: build_recipient_email_def remove_spaces_def lower_def lower_char_def
        uppers_def lowers_def)
  have ex2: "build_recipient_email ''Jane Ann'' ''Doe'' ''example.com'' = ''janeann.doe@example.com''"
    by (simp add: build_recipient_email_def remove_spaces_def lower_def lower_char_def
        uppers_def lowers_def)
  from general no_space ex1 ex2 show ?thesis by blast
qed

section \<open>Properties of the directive loader\<close>













section \<open>Paths, files and the single steps\<close>

lemma employee_csv_path_eq:
  "employee_csv_path given sur = ''out/hardware_'' @ spaces_to_underscores (given @ ''_'' @ sur) @ ''.csv''"
  by (simp add: employee_csv_path_def path_join_def OUTPUT_DIR_def)

lemma employee_csv_path_not_combined: "employee_csv_path given sur \<noteq> COMBINED_OUTPUT_PATH"
  by (simp add: employee_csv_path_eq COMBINED_OUTPUT_PATH_def)

lemma last_xlsx_path_of: "last (xlsx_path_of p) = CHR ''x''"
  by (simp add: xlsx_path_of_def)

lemma last_employee_csv_path: "last (employee_csv_path given sur) = CHR ''v''"
  by (simp add: employee_csv_path_eq)

lemma xlsx_path_not_combined: "xlsx_path_of p \<noteq> COMBINED_OUTPUT_PATH"
proof
  assume "xlsx_path_of p = COMBINED_OUTPUT_PATH"
  then have "last (xlsx_path_of p) = last COMBINED_OUTPUT_PATH" by simp
  then show False by (simp add: last_xlsx_path_of COMBINED_OUTPUT_PATH_def)
qed

lemma xlsx_path_not_csv_path: "xlsx_path_of p \<noteq> employee_csv_path given sur"
proof
  assume "xlsx_path_of p = employee_csv_path given sur"
  then have "last (xlsx_path_of p) = last (employee_csv_path given sur)" by simp
  then show False by (simp add: last_xlsx_path_of last_employee_csv_path)
qed

lemma files_write_file: "files (write_file p f s) = (files s)(p \<mapsto> f)"
  by (simp add: write_file_def)

lemma trace_write_file: "trace (write_file p f s) = trace s"
  by (simp add: write_file_def)

lemma calls_write_file: "smtp_calls (write_file p f s) = smtp_calls s"
  by (simp add: write_file_def)

lemma files_emit: "files (emit e s) = files s"
  by (simp add: emit_def)

lemma trace_emit: "trace (emit e s) = trace s @ [e]"
  by (simp add: emit_def)

lemma calls_emit: "smtp_calls (emit e s) = smtp_calls s"
  by (simp add: emit_def)

lemmas state_simps = files_write_file trace_write_file calls_write_file files_emit trace_emit calls_emit

lemma write_employee_csv_ok:
  "\<not> write_fails w (employee_csv_path given sur) \<Longrightarrow>
   write_employee_csv w given sur cols rows s =
     (Inr (employee_csv_path given sur),
      write_file (employee_csv_path given sur) (Csv (cols # map render_row rows)) s)"
  by (simp add: write_employee_csv_def Let_def)

lemma write_employee_csv_fails:
  "write_fails w (employee_csv_path given sur) \<Longrightarrow>
   write_employee_csv w given sur cols rows s = (Inl (OSError (employee_csv_path given sur)), s)"
  by (simp add: write_employee_csv_def Let_def)

lemma append_to_combined_csv_ok:
  "\<not> write_fails w path \<Longrightarrow>
   append_to_combined_csv w cols rows path first s =
     (Inr (length rows),
      if rows = [] \<and> \<not> first then s
      else write_file path
             (if first then Csv (cols # map render_row rows)
              else append_records (files s path) (map render_row rows)) s)"
  by (simp add: append_to_combined_csv_def)

lemma append_to_combined_csv_fails:
  "write_fails w path \<Longrightarrow> rows \<noteq> [] \<or> first \<Longrightarrow>
   append_to_combined_csv w cols rows path first s = (Inl (OSError path), s)"
  by (auto simp: append_to_combined_csv_def)

lemma dom_write_file: "dom (files (write_file q f s)) = insert q (dom (files s))"
  by (simp add: write_file_def)

lemma dom_emit: "dom (files (emit e s)) = dom (files s)"
  by (simp add: emit_def)

lemma smtp_scope_append:
  "smtp_scope b (xs @ ys) = (case smtp_scope b xs of None \<Rightarrow> None | Some b' \<Rightarrow> smtp_scope b' ys)"
  by (induction xs arbitrary: b) (auto split: event.splits)

lemma loop_events_Nil: "loop_events []"
  by (simp add: loop_events_def)

lemma loop_events_append: "loop_events xs \<Longrightarrow> loop_events ys \<Longrightarrow> loop_events (xs @ ys)"
  by (simp add: loop_events_def smtp_scope_append)

lemma write_employee_csv_frame:
  "write_employee_csv w given sur cols rows s = (r, s') \<Longrightarrow>
   trace s' = trace s \<and> smtp_calls s' = smtp_calls s \<and> dom (files s) \<subseteq> dom (files s')"
  by (auto simp: write_employee_csv_def Let_def write_file_def split: if_splits)

lemma append_to_combined_csv_frame:
  "append_to_combined_csv w cols rows p first s = (r, s') \<Longrightarrow>
   trace s' = trace s \<and> smtp_calls s' = smtp_calls s \<and> dom (files s) \<subseteq> dom (files s')"
  by (auto simp: append_to_combined_csv_def write_file_def split: if_splits)

lemma loop_events_query: "loop_events [DbQuery given sur]"
  by (simp add: loop_events_def)

lemma loop_events_print: "loop_events [Print l]"
  by (simp add: loop_events_def)

lemma write_employee_csv_combined:
  "write_employee_csv w given sur cols rows s = (r, s') \<Longrightarrow>
   files s' COMBINED_OUTPUT_PATH = files s COMBINED_OUTPUT_PATH"
  using employee_csv_path_not_combined [of given sur]
  by (auto simp: write_employee_csv_def Let_def write_file_def split: if_splits)

lemma append_to_combined_csv_Inr:
  "append_to_combined_csv w cols rows p first s = (Inr n, s') \<Longrightarrow>
   n = length rows \<and>
   files s' p =
     (if rows = [] \<and> \<not> first then files s p
      else if first then Some (Csv (cols # map render_row rows))
      else Some (append_records (files s p) (map render_row rows)))"
  by (auto simp: append_to_combined_csv_def write_file_def split: if_splits)

lemma append_records_assoc:
  "append_records (Some (append_records f a)) b = append_records f (a @ b)"
  by (auto simp: append_records_def split: option.splits file_content.splits)

lemma append_records_Csv: "append_records (Some (Csv t)) n = Csv (t @ n)"
  by (simp add: append_records_def)

lemma convert_csv_to_xlsx_frame:
  "convert_csv_to_xlsx w p s = (r, s') \<Longrightarrow>
   trace s' = trace s \<and> smtp_calls s' = smtp_calls s \<and> dom (files s) \<subseteq> dom (files s')"
  by (auto simp: convert_csv_to_xlsx_def Let_def write_file_def
      split: if_splits option.splits file_content.splits sum.splits prod.splits)

lemma convert_csv_to_xlsx_Inr:
  "convert_csv_to_xlsx w p s = (Inr x, s') \<Longrightarrow>
   x = xlsx_path_of p \<and> x \<in> dom (files s') \<and> (\<forall>q. q \<noteq> x \<longrightarrow> files s' q = files s q)"
  by (auto simp: convert_csv_to_xlsx_def Let_def write_file_def
      split: if_splits option.splits file_content.splits sum.splits prod.splits)

lemma convert_csv_to_xlsx_combined:
  "convert_csv_to_xlsx w p s = (r, s') \<Longrightarrow>
   files s' COMBINED_OUTPUT_PATH = files s COMBINED_OUTPUT_PATH"
  using xlsx_path_not_combined [of p]
  by (auto simp: convert_csv_to_xlsx_def Let_def write_file_def
      split: if_splits option.splits file_content.splits sum.splits prod.splits)

lemma convert_csv_to_xlsx_refused:
  "files s p = Some (Csv t) \<Longrightarrow> pd_read_csv w t = Inr (labels, rows) \<Longrightarrow>
   write_fails w (xlsx_path_of p) \<Longrightarrow>
   convert_csv_to_xlsx w p s = (Inl (OSError (xlsx_path_of p)), s)"
  by (simp add: convert_csv_to_xlsx_def Let_def)

lemma pd_read_csv_header_only:
  "regular_labels cols \<Longrightarrow> \<not> blank_record cols \<Longrightarrow> pd_read_csv w [cols] = Inr (cols, [])"
  by (simp add: pd_read_csv_def typed_rows_def)

lemma regular_labels_not_blank:
  "regular_labels cols \<Longrightarrow> \<not> blank_record cols"
proof
  assume r: "regular_labels cols" and b: "blank_record cols"
  from b r obtain s where c: "cols = [s]" and s: "s \<noteq> []"
    and ws: "list_all (\<lambda>c. c = CHR '' '' \<or> c = CHR 0x09) s"
    by (auto simp: blank_record_def regular_labels_def split: list.splits)
  from r c have st: "strip s = s" by (simp add: regular_labels_def)
  from s obtain a as where sa: "s = a # as" by (cases s) auto
  with ws have "a = CHR '' '' \<or> a = CHR 0x09" by simp
  then have "is_space a" by (auto simp: is_space_def)
  then have "length (dropWhile is_space s) < length s"
    using sa by (simp add: le_imp_less_Suc length_dropWhile_le)
  moreover have "length (strip s) \<le> length (dropWhile is_space s)"
  proof -
    have "length (dropWhile is_space (rev (dropWhile is_space s))) \<le> length (rev (dropWhile is_space s))"
      by (rule length_dropWhile_le)
    then show ?thesis unfolding strip_def by simp
  qed
  ultimately show False using st by simp
qed

lemma regular_labels_legal: "regular_labels cols \<Longrightarrow> \<not> list_ex (list_ex illegal_char) cols"
  by (auto simp: regular_labels_def list_all_iff list_ex_iff illegal_char_def control_char_def)

lemma convert_csv_to_xlsx_header_only:
  assumes "files s p = Some (Csv [cols])" "regular_labels cols" "\<not> write_fails w (xlsx_path_of p)"
  shows "convert_csv_to_xlsx w p s =
     (Inr (xlsx_path_of p), write_file (xlsx_path_of p) (Xlsx ''Hardware'' cols []) s)"
  using assms regular_labels_legal [OF assms(2)]
    pd_read_csv_header_only [OF assms(2) regular_labels_not_blank [OF assms(2)], of w]
  by (simp add: convert_csv_to_xlsx_def Let_def workbook_illegal_def)

lemma send_email_missing_attachment:
  "files s path = None \<Longrightarrow>
   send_email_with_attachment w to_email subject html path cc s = (Inl (OSError path), s)"
  by (simp add: send_email_with_attachment_def)

lemma send_email_connect_fails:
  "files s path = Some f \<Longrightarrow> \<not> connect_ok (smtp w (smtp_calls s)) \<Longrightarrow>
   send_email_with_attachment w to_email subject html path cc s =
     (Inl SMTPConnectError, s\<lparr>smtp_calls := Suc (smtp_calls s)\<rparr>)"
  by (simp add: send_email_with_attachment_def Let_def)

lemma send_email_connected:
  "files s path = Some f \<Longrightarrow> connect_ok (smtp w (smtp_calls s)) \<Longrightarrow>
   send_email_with_attachment w to_email subject html path cc s =
     ((if ehlo_ok (smtp w (smtp_calls s)) \<and> \<not> quit_ok (smtp w (smtp_calls s))
       then Inl SMTPResponseException
       else if \<not> ehlo_ok (smtp w (smtp_calls s)) then Inl SMTPServerDisconnected
       else if \<not> sendmail_ok (smtp w (smtp_calls s)) then Inl SMTPException
       else Inr ()),
      emit SmtpClose
        (emit (if ehlo_ok (smtp w (smtp_calls s)) \<and> sendmail_ok (smtp w (smtp_calls s))
               then SmtpSendmail SENDER_EMAIL (to_email # cc)
                      \<lparr>msg_from = SENDER_EMAIL, msg_to = to_email,
                       msg_cc = (if cc \<noteq> [] then Some (join '', '' cc) else None),
                       msg_subject = subject, msg_body = html,
                       msg_attachment_name = basename path, msg_attachment = f\<rparr>
               else SmtpSendmailFailed SENDER_EMAIL (to_email # cc))
          (emit (SmtpEhlo (ehlo_ok (smtp w (smtp_calls s))))
            (emit SmtpOpen (s\<lparr>smtp_calls := Suc (smtp_calls s)\<rparr>)))))"
  by (simp add: send_email_with_attachment_def Let_def)

lemma send_email_frame:
  assumes "send_email_with_attachment w to_email subject html path cc s = (r, s')"
  shows "files s' = files s
    \<and> (\<exists>evs. trace s' = trace s @ evs \<and> loop_events evs \<and> printed evs = []
          \<and> count_list evs SmtpOpen =
              (if path \<in> dom (files s) \<and> connect_ok (smtp w (smtp_calls s)) then 1 else 0))
    \<and> smtp_calls s' = (if path \<in> dom (files s) then Suc (smtp_calls s) else smtp_calls s)"
proof (cases "files s path")
  case None
  with assms show ?thesis
    by (auto simp: send_email_missing_attachment loop_events_Nil printed_def)
next
  case (Some f)
  show ?thesis
  proof (cases "connect_ok (smtp w (smtp_calls s))")
    case False
    with assms Some show ?thesis
      by (auto simp: send_email_connect_fails loop_events_Nil printed_def)
  next
    case True
    from assms Some True show ?thesis
      unfolding send_email_connected [OF Some True]
      by (auto simp: state_simps loop_events_def printed_def)
  qed
qed

lemma printed_append: "printed (xs @ ys) = printed xs @ printed ys"
  by (simp add: printed_def)

lemma send_lines_append: "send_lines (xs @ ys) = send_lines xs + send_lines ys"
  by (simp add: send_lines_def printed_append)

lemma send_lines_Nil: "send_lines [] = 0"
  by (simp add: send_lines_def printed_def)

lemma send_lines_query: "send_lines [DbQuery given sur] = 0"
  by (simp add: send_lines_def printed_def)

lemma process_employee_steps:
  assumes q: "db_query w given sur = Inr (cols, rows)"
    and a: "write_employee_csv w given sur cols rows (emit (DbQuery given sur) s) = (Inr csv_path, s1)"
    and b: "convert_csv_to_xlsx w csv_path s1 = (Inr xlsx_path, s2)"
    and c: "append_to_combined_csv w cols rows COMBINED_OUTPUT_PATH first s2 = (Inr n, s3)"
  shows "process_employee w (given, sur, cc) (tot, first) s =
    (case send_email_with_attachment w (build_recipient_email given sur RECIPIENT_DOMAIN) EMAIL_SUBJECT
            (body_html_of given sur rows (table_html_of cols rows)) xlsx_path cc s3 of
       (Inr u, s4) \<Rightarrow>
         (Inr (tot + n, if 0 < n \<and> first then False else first),
          emit (Print (SentEmail (build_recipient_email given sur RECIPIENT_DOMAIN) cc (length rows)
                  xlsx_path)) s4)
     | (Inl e, s4) \<Rightarrow>
         (Inr (tot + n, if 0 < n \<and> first then False else first),
          emit (Print (ErrorSending (build_recipient_email given sur RECIPIENT_DOMAIN) e)) s4))"
  unfolding process_employee_def
  by (simp add: q a b c Let_def split: prod.splits sum.splits)

lemma process_employee_frame:
  assumes "process_employee w emp acc s = (r, s')"
  shows "\<exists>evs. trace s' = trace s @ evs \<and> loop_events evs \<and> dom (files s) \<subseteq> dom (files s')
    \<and> smtp_calls s' = smtp_calls s + send_lines evs
    \<and> (connect_ok (smtp w (smtp_calls s)) \<longrightarrow> count_list evs SmtpOpen = send_lines evs)
    \<and> send_lines evs = (if is_error r then 0 else 1)"
proof -
  obtain given sur cc where emp: "emp = (given, sur, cc)" by (cases emp)
  obtain tot first where acc: "acc = (tot, first)" by (cases acc)
  have nil: ?thesis if "s' = s" "r = Inl e" for e
    using that loop_events_Nil by (auto simp: send_lines_Nil is_error_def)
  have qonly: ?thesis if h: "trace s' = trace s @ [DbQuery given sur]" "dom (files s) \<subseteq> dom (files s')"
      "smtp_calls s' = smtp_calls s" "r = Inl e" for e
  proof -
    have "count_list [DbQuery given sur] SmtpOpen = send_lines [DbQuery given sur]"
      by (simp add: send_lines_query)
    with h loop_events_query [of given sur] show ?thesis
      by (intro exI [of _ "[DbQuery given sur]"]) (simp add: send_lines_query is_error_def)
  qed
  show ?thesis
  proof (cases "db_query w given sur")
    case (Inl e)
    with assms emp acc have "s' = s" "r = Inl e"
      by (simp_all add: process_employee_def)
    then show ?thesis by (rule nil)
  next
    case (Inr cr)
    obtain cols rows where cr: "cr = (cols, rows)" by (cases cr)
    let ?s0 = "emit (DbQuery given sur) s"
    have t0: "trace ?s0 = trace s @ [DbQuery given sur]" "smtp_calls ?s0 = smtp_calls s"
      "dom (files ?s0) = dom (files s)"
      by (simp_all add: state_simps)
    obtain r1 s1 where a: "write_employee_csv w given sur cols rows ?s0 = (r1, s1)"
      by (cases "write_employee_csv w given sur cols rows ?s0")
    note f1 = write_employee_csv_frame [OF a]
    have d1: "dom (files s) \<subseteq> dom (files s1)"
      using f1 [THEN conjunct2, THEN conjunct2] t0(3) by simp
    show ?thesis
    proof (cases r1)
      case (Inl e)
      with assms emp acc Inr cr a have e: "s' = s1" "r = Inl e"
        by (simp_all add: process_employee_def Let_def)
      show ?thesis
        by (rule qonly [of e]) (use e f1 t0 d1 in simp_all)
    next
      case csv: (Inr csv_path)
      obtain r2 s2 where b: "convert_csv_to_xlsx w csv_path s1 = (r2, s2)"
        by (cases "convert_csv_to_xlsx w csv_path s1")
      note f2 = convert_csv_to_xlsx_frame [OF b]
      have d2: "dom (files s) \<subseteq> dom (files s2)"
        by (rule order_trans [OF d1 f2 [THEN conjunct2, THEN conjunct2]])
      show ?thesis
      proof (cases r2)
        case (Inl e)
        with assms emp acc Inr cr a csv b have e: "s' = s2" "r = Inl e"
          by (simp_all add: process_employee_def Let_def)
        show ?thesis
          by (rule qonly [of e]) (use e f1 f2 t0 d2 in simp_all)
      next
        case xlsx: (Inr xlsx_path)
        obtain r3 s3 where c: "append_to_combined_csv w cols rows COMBINED_OUTPUT_PATH first s2 = (r3, s3)"
          by (cases "append_to_combined_csv w cols rows COMBINED_OUTPUT_PATH first s2")
        note f3 = append_to_combined_csv_frame [OF c]
        have d3: "dom (files s) \<subseteq> dom (files s3)"
          by (rule order_trans [OF d2 f3 [THEN conjunct2, THEN conjunct2]])
        show ?thesis
        proof (cases r3)
          case (Inl e)
          with assms emp acc Inr cr a csv b xlsx c have e: "s' = s3" "r = Inl e"
            by (simp_all add: process_employee_def Let_def)
          show ?thesis
            by (rule qonly [of e]) (use e f1 f2 f3 t0 d3 in simp_all)
        next
          case written: (Inr n)
          let ?to = "build_recipient_email given sur RECIPIENT_DOMAIN"
          let ?body = "body_html_of given sur rows (table_html_of cols rows)"
          obtain r4 s4 where d: "send_email_with_attachment w ?to EMAIL_SUBJECT ?body xlsx_path cc s3 = (r4, s4)"
            by (cases "send_email_with_attachment w ?to EMAIL_SUBJECT ?body xlsx_path cc s3")
          from send_email_frame [OF d] obtain evs where f4:
            "files s4 = files s3" "trace s4 = trace s3 @ evs" "loop_events evs" "printed evs = []"
            "count_list evs SmtpOpen =
              (if xlsx_path \<in> dom (files s3) \<and> connect_ok (smtp w (smtp_calls s3)) then 1 else 0)"
            "smtp_calls s4 = (if xlsx_path \<in> dom (files s3) then Suc (smtp_calls s3) else smtp_calls s3)"
            by blast
          have x: "xlsx_path \<in> dom (files s3)"
            using convert_csv_to_xlsx_Inr [OF b [unfolded xlsx], THEN conjunct2, THEN conjunct1]
              f3 [THEN conjunct2, THEN conjunct2] by (rule subsetD [rotated])
          note p = process_employee_steps [OF Inr [unfolded cr] a [unfolded csv] b [unfolded xlsx]
              c [unfolded written], of cc tot]
          from assms [unfolded emp acc p d] obtain l where l: "s' = emit (Print l) s4"
            and r: "is_error r = False" and sl: "is_send_line l"
            by (cases r4) (auto simp: is_error_def is_send_line_def)
          have sn: "send_lines ([DbQuery given sur] @ evs @ [Print l]) = 1"
            using f4(4) sl by (simp add: send_lines_def printed_def)
          have tr: "trace s' = trace s @ ([DbQuery given sur] @ evs @ [Print l])"
            using l f1 f2 f3 f4(2) t0 by (simp add: state_simps)
          have le: "loop_events ([DbQuery given sur] @ evs @ [Print l])"
            by (intro loop_events_append loop_events_query loop_events_print f4(3))
          have "dom (files s') = dom (files s3)" using l f4(1) by (simp add: state_simps)
          then have dm: "dom (files s) \<subseteq> dom (files s')"
            using d3 by simp
          have cl: "smtp_calls s' = smtp_calls s + send_lines ([DbQuery given sur] @ evs @ [Print l])"
            unfolding sn using l f1 f2 f3 f4(6) x t0 by (simp add: state_simps)
          have cn: "connect_ok (smtp w (smtp_calls s)) \<longrightarrow>
              count_list ([DbQuery given sur] @ evs @ [Print l]) SmtpOpen
                = send_lines ([DbQuery given sur] @ evs @ [Print l])"
            unfolding sn using f4(5) x f1 f2 f3 t0 by simp
          from tr le dm cl cn sn r show ?thesis by (intro exI [of _ "[DbQuery given sur] @ evs @ [Print l]"]) simp
        qed
      qed
    qed
  qed
qed

lemma employee_loop_frame:
  "employee_loop w emps acc s = (r, s') \<Longrightarrow>
   \<exists>evs. trace s' = trace s @ evs \<and> loop_events evs \<and> dom (files s) \<subseteq> dom (files s')
     \<and> smtp_calls s' = smtp_calls s + send_lines evs
     \<and> ((\<forall>n. connect_ok (smtp w n)) \<longrightarrow> count_list evs SmtpOpen = send_lines evs)
     \<and> (\<not> is_error r \<longrightarrow> send_lines evs = length emps)"
proof (induction emps arbitrary: acc s)
  case Nil
  then show ?case using loop_events_Nil by (auto simp: send_lines_Nil)
next
  case (Cons emp emps)
  obtain r1 s1 where p: "process_employee w emp acc s = (r1, s1)"
    by (cases "process_employee w emp acc s")
  from process_employee_frame [OF p] obtain evs1 where f1:
    "trace s1 = trace s @ evs1" "loop_events evs1" "dom (files s) \<subseteq> dom (files s1)"
    "smtp_calls s1 = smtp_calls s + send_lines evs1"
    "connect_ok (smtp w (smtp_calls s)) \<longrightarrow> count_list evs1 SmtpOpen = send_lines evs1"
    "send_lines evs1 = (if is_error r1 then 0 else 1)"
    by blast
  show ?case
  proof (cases r1)
    case (Inl e)
    with Cons.prems p have "s' = s1" "r = Inl e" by simp_all
    with f1 Inl show ?thesis
      by (intro exI [of _ evs1]) (simp add: is_error_def)
  next
    case (Inr acc1)
    with Cons.prems p have l: "employee_loop w emps acc1 s1 = (r, s')" by simp
    from Cons.IH [OF l] obtain evs2 where f2:
      "trace s' = trace s1 @ evs2" "loop_events evs2" "dom (files s1) \<subseteq> dom (files s')"
      "smtp_calls s' = smtp_calls s1 + send_lines evs2"
      "(\<forall>n. connect_ok (smtp w n)) \<longrightarrow> count_list evs2 SmtpOpen = send_lines evs2"
      "\<not> is_error r \<longrightarrow> send_lines evs2 = length emps"
      by blast
    have tr: "trace s' = trace s @ (evs1 @ evs2)" using f1(1) f2(1) by simp
    have le: "loop_events (evs1 @ evs2)" by (rule loop_events_append [OF f1(2) f2(2)])
    have dm: "dom (files s) \<subseteq> dom (files s')" by (rule order_trans [OF f1(3) f2(3)])
    have rest: "smtp_calls s' = smtp_calls s + send_lines (evs1 @ evs2)"
      "(\<forall>n. connect_ok (smtp w n)) \<longrightarrow> count_list (evs1 @ evs2) SmtpOpen = send_lines (evs1 @ evs2)"
      "\<not> is_error r \<longrightarrow> send_lines (evs1 @ evs2) = length (emp # emps)"
      using f1(4,5,6) f2(4,5,6) Inr by (auto simp: send_lines_append is_error_def)
    from tr le dm rest show ?thesis by blast
  qed
qed


section \<open>The combined audit file\<close>

lemma process_employee_combined:
  assumes p: "process_employee w (given, sur, cc) (tot, first) s = (Inr (tot', first'), s')"
    and q: "db_query w given sur = Inr (cols, rows)"
  shows "tot' = tot + length rows \<and> first' = (first \<and> rows = []) \<and>
     files s' COMBINED_OUTPUT_PATH =
       (if rows = [] \<and> \<not> first then files s COMBINED_OUTPUT_PATH
        else if first then Some (Csv (cols # map render_row rows))
        else Some (append_records (files s COMBINED_OUTPUT_PATH) (map render_row rows)))"
proof -
  let ?s0 = "emit (DbQuery given sur) s"
  obtain r1 s1 where a: "write_employee_csv w given sur cols rows ?s0 = (r1, s1)"
    by (cases "write_employee_csv w given sur cols rows ?s0")
  from p q a obtain csv_path where r1: "r1 = Inr csv_path"
    by (cases r1) (auto simp: process_employee_def Let_def)
  obtain r2 s2 where b: "convert_csv_to_xlsx w csv_path s1 = (r2, s2)"
    by (cases "convert_csv_to_xlsx w csv_path s1")
  from p q a r1 b obtain xlsx_path where r2: "r2 = Inr xlsx_path"
    by (cases r2) (auto simp: process_employee_def Let_def)
  obtain r3 s3 where c: "append_to_combined_csv w cols rows COMBINED_OUTPUT_PATH first s2 = (r3, s3)"
    by (cases "append_to_combined_csv w cols rows COMBINED_OUTPUT_PATH first s2")
  from p q a r1 b r2 c obtain n where r3: "r3 = Inr n"
    by (cases r3) (auto simp: process_employee_def Let_def)
  let ?to = "build_recipient_email given sur RECIPIENT_DOMAIN"
  let ?body = "body_html_of given sur rows (table_html_of cols rows)"
  obtain r4 s4 where d: "send_email_with_attachment w ?to EMAIL_SUBJECT ?body xlsx_path cc s3 = (r4, s4)"
    by (cases "send_email_with_attachment w ?to EMAIL_SUBJECT ?body xlsx_path cc s3")
  from p q a r1 b r2 c r3 d obtain l where
    res: "tot' = tot + n" "first' = (if 0 < n \<and> first then False else first)" "s' = emit (Print l) s4"
    by (cases r4) (auto simp: process_employee_def Let_def)
  have f4: "files s4 = files s3" using send_email_frame [OF d] by simp
  have f0: "files ?s0 COMBINED_OUTPUT_PATH = files s COMBINED_OUTPUT_PATH" by (simp add: state_simps)
  note f1 = write_employee_csv_combined [OF a]
  note f2 = convert_csv_to_xlsx_combined [OF b]
  note f3 = append_to_combined_csv_Inr [OF c [unfolded r3]]
  have n: "n = length rows" using f3 by simp
  have "files s' COMBINED_OUTPUT_PATH = files s3 COMBINED_OUTPUT_PATH"
    using res(3) f4 by (simp add: state_simps)
  also have "\<dots> = (if rows = [] \<and> \<not> first then files s COMBINED_OUTPUT_PATH
        else if first then Some (Csv (cols # map render_row rows))
        else Some (append_records (files s COMBINED_OUTPUT_PATH) (map render_row rows)))"
    using f3 f2 f1 f0 by simp
  finally show ?thesis using res(1,2) n by auto
qed

lemma employee_loop_combined:
  assumes "same_columns w cols emps"
    and "employee_loop w emps (tot, first) s = (Inr (tot', first'), s')"
  shows "tot' = tot + length (concat (map (audit_rows w) emps))
    \<and> first' = (first \<and> concat (map (audit_rows w) emps) = [])
    \<and> files s' COMBINED_OUTPUT_PATH =
        (if concat (map (audit_rows w) emps) = [] \<and> (\<not> first \<or> emps = [])
         then files s COMBINED_OUTPUT_PATH
         else if first then Some (Csv (cols # concat (map (audit_rows w) emps)))
         else Some (append_records (files s COMBINED_OUTPUT_PATH) (concat (map (audit_rows w) emps))))"
  using assms
proof (induction emps arbitrary: tot first s)
  case Nil
  then show ?case by simp
next
  case (Cons emp emps)
  obtain given sur cc where emp: "emp = (given, sur, cc)" by (cases emp)
  from Cons.prems(1) emp obtain rows where q: "db_query w given sur = Inr (cols, rows)"
    and sc: "same_columns w cols emps"
    by (auto simp: same_columns_def query_of_def split: sum.splits)
  have ar: "audit_rows w emp = map render_row rows"
    using q emp by (simp add: audit_rows_def query_of_def)
  obtain r1 s1 where p: "process_employee w (given, sur, cc) (tot, first) s = (r1, s1)"
    by (cases "process_employee w (given, sur, cc) (tot, first) s")
  from Cons.prems(2) emp p obtain tot1 first1 where r1: "r1 = Inr (tot1, first1)"
    and l: "employee_loop w emps (tot1, first1) s1 = (Inr (tot', first'), s')"
    by (cases r1) auto
  define D where "D = concat (map (audit_rows w) emps)"
  have cc: "concat (map (audit_rows w) (emp # emps)) = map render_row rows @ D"
    by (simp add: ar D_def)
  have e: "emps = [] \<Longrightarrow> D = []" by (simp add: D_def)
  have rn: "(map render_row rows = []) = (rows = [])" by simp
  note h = process_employee_combined [OF p [unfolded r1] q]
  note ih = Cons.IH [OF sc l, folded D_def]
  have "tot' = tot + length (map render_row rows @ D)
    \<and> first' = (first \<and> map render_row rows @ D = [])
    \<and> files s' COMBINED_OUTPUT_PATH =
        (if map render_row rows @ D = [] \<and> (\<not> first \<or> emp # emps = [])
         then files s COMBINED_OUTPUT_PATH
         else if first then Some (Csv (cols # map render_row rows @ D))
         else Some (append_records (files s COMBINED_OUTPUT_PATH) (map render_row rows @ D)))"
  proof (cases "rows = []")
    case True
    with h ih e show ?thesis by (cases first; cases "D = []") auto
  next
    case False
    with h ih e rn show ?thesis
      by (cases first; cases "D = []") (auto simp: append_records_assoc append_records_Csv)
  qed
  then show ?case unfolding cc .
qed

lemma main_run:
  assumes "input_file w = Inr tbl" "read_employees tbl = Inr emps" "emps \<noteq> []"
    "fs COMBINED_OUTPUT_PATH = None \<or> \<not> remove_fails w COMBINED_OUTPUT_PATH" "db_connect_ok w"
  shows "main w fs =
    (case employee_loop w emps (0, True)
            (emit DbConnect \<lparr>files = fs(COMBINED_OUTPUT_PATH := None), trace = [], smtp_calls = 0\<rparr>) of
       (Inl e, s3) \<Rightarrow> (Inl e, emit DbClose s3)
     | (Inr (total_written, first), s3) \<Rightarrow>
         (Inr (),
          emit DbClose
            (emit (Print (if total_written = 0 then NoRowsMatched else SavedRows total_written)) s3)))"
  using assms by (auto simp: main_def Let_def)

lemma main_Inr_ready:
  assumes "input_file w = Inr tbl" "read_employees tbl = Inr emps" "emps \<noteq> []" "fst (main w fs) = Inr ()"
  shows "(fs COMBINED_OUTPUT_PATH = None \<or> \<not> remove_fails w COMBINED_OUTPUT_PATH) \<and> db_connect_ok w"
proof (rule ccontr)
  assume "\<not> ((fs COMBINED_OUTPUT_PATH = None \<or> \<not> remove_fails w COMBINED_OUTPUT_PATH) \<and> db_connect_ok w)"
  with assms(1-3) have "\<exists>e. fst (main w fs) = Inl e" by (auto simp: main_def Let_def)
  with assms(4) show False by auto
qed

lemma main_combined:
  assumes i: "input_file w = Inr tbl" and r: "read_employees tbl = Inr emps" and ne: "emps \<noteq> []"
    and sc: "same_columns w cols emps" and ok: "fst (main w fs) = Inr ()"
  shows "files (snd (main w fs)) COMBINED_OUTPUT_PATH = Some (Csv (cols # concat (map (audit_rows w) emps)))"
proof -
  let ?s = "emit DbConnect \<lparr>files = fs(COMBINED_OUTPUT_PATH := None), trace = [], smtp_calls = 0\<rparr>"
  note rd = main_Inr_ready [OF i r ne ok]
  note m = main_run [of w tbl emps fs, OF i r ne conjunct1 [OF rd] conjunct2 [OF rd]]
  obtain res s3 where l: "employee_loop w emps (0, True) ?s = (res, s3)"
    by (cases "employee_loop w emps (0, True) ?s")
  show ?thesis
  proof (cases res)
    case (Inl e)
    have "fst (main w fs) = Inl e" unfolding m l Inl by simp
    with ok show ?thesis by simp
  next
    case (Inr acc')
    obtain t f where acc': "acc' = (t, f)" by (cases acc')
    have mm: "files (snd (main w fs)) = files s3" unfolding m l Inr acc' by (simp add: state_simps)
    from employee_loop_combined [OF sc l [unfolded Inr acc']] ne
    have "files s3 COMBINED_OUTPUT_PATH = Some (Csv (cols # concat (map (audit_rows w) emps)))"
      by simp
    then show ?thesis by (simp add: mm)
  qed
qed

text \<open>
  Claim C2. In every run that processes at least one employee and ends normally, the
  queries answering with one column list, the combined audit file ends up as one header
  row followed by the rows of the employees in batch order, and nothing else; with three
  employees of whom only the second has rows, it is the header followed by exactly the
  second employee's rows. An employee without rows leaves the first-write flag and the
  running total as they were.
\<close>

theorem combined_header_once:
  "(input_file w = Inr tbl \<and> read_employees tbl = Inr emps \<and> emps \<noteq> []
      \<and> same_columns w cols emps \<and> fst (main w fs) = Inr ()
    \<longrightarrow> files (snd (main w fs)) COMBINED_OUTPUT_PATH =
          Some (Csv (cols # concat (map (audit_rows w) emps)))
        \<and> (\<forall>e1 e2 e3. emps = [e1, e2, e3] \<and> audit_rows w e1 = [] \<and> audit_rows w e3 = [] \<longrightarrow>
             files (snd (main w fs)) COMBINED_OUTPUT_PATH = Some (Csv (cols # audit_rows w e2))))
   \<and> (db_query w given sur = Inr (cols, [])
      \<and> process_employee w (given, sur, cc) (tot, first) s = (Inr (tot', first'), s')
    \<longrightarrow> first' = first \<and> tot' = tot)"
proof (intro conjI impI allI)
  assume h: "input_file w = Inr tbl \<and> read_employees tbl = Inr emps \<and> emps \<noteq> []
      \<and> same_columns w cols emps \<and> fst (main w fs) = Inr ()"
  then show g: "files (snd (main w fs)) COMBINED_OUTPUT_PATH =
          Some (Csv (cols # concat (map (audit_rows w) emps)))"
    using main_combined [of w tbl emps cols fs] by blast
  fix e1 e2 e3
  assume "emps = [e1, e2, e3] \<and> audit_rows w e1 = [] \<and> audit_rows w e3 = []"
  with g show "files (snd (main w fs)) COMBINED_OUTPUT_PATH = Some (Csv (cols # audit_rows w e2))"
    by simp
next
  assume h: "db_query w given sur = Inr (cols, [])
      \<and> process_employee w (given, sur, cc) (tot, first) s = (Inr (tot', first'), s')"
  from process_employee_combined [OF conjunct2 [OF h] conjunct1 [OF h]]
  show "first' = first" "tot' = tot" by simp_all
qed

theorem combined_header_once_witness:
  "input_file world_ok = Inr scenario_input
   \<and> read_employees scenario_input =
       Inr [(''Ann'', ''Lee'', [''boss@x.com'']), (''Bob'', ''Ray'', [''boss@x.com'', ''hr@x.com'']),
            (''Cy'', ''Fox'', [])]
   \<and> same_columns world_ok scenario_columns
       [(''Ann'', ''Lee'', [''boss@x.com'']), (''Bob'', ''Ray'', [''boss@x.com'', ''hr@x.com'']),
        (''Cy'', ''Fox'', [])]
   \<and> fst (main world_ok Map.empty) = Inr ()
   \<and> audit_rows world_ok (''Ann'', ''Lee'', [''boss@x.com'']) = []
   \<and> audit_rows world_ok (''Cy'', ''Fox'', []) = []
   \<and> audit_rows world_ok (''Bob'', ''Ray'', [''boss@x.com'', ''hr@x.com'']) =
       [[''Laptop'', ''SN1''], [''Dock'', '''']]
   \<and> files (snd (main world_ok Map.empty)) COMBINED_OUTPUT_PATH =
       Some (Csv [[''Description'', ''SerialNo''], [''Laptop'', ''SN1''], [''Dock'', '''']])
   \<and> db_query world_ok ''Ann'' ''Lee'' = Inr (scenario_columns, [])
   \<and> fst (process_employee world_ok (''Ann'', ''Lee'', [''boss@x.com'']) (0, True) no_files) = Inr (0, True)"
proof -
  let ?emps = "[(''Ann'', ''Lee'', [''boss@x.com'']), (''Bob'', ''Ray'', [''boss@x.com'', ''hr@x.com'']),
        (''Cy'', ''Fox'', [])]"
  have i: "input_file world_ok = Inr scenario_input" by (simp add: world_ok_def)
  have r: "read_employees scenario_input = Inr ?emps" by code_simp
  have sc: "same_columns world_ok scenario_columns ?emps" by code_simp
  have m: "fst (main world_ok Map.empty) = Inr ()" by code_simp
  have a: "audit_rows world_ok (''Ann'', ''Lee'', [''boss@x.com'']) = []"
    "audit_rows world_ok (''Cy'', ''Fox'', []) = []"
    "audit_rows world_ok (''Bob'', ''Ray'', [''boss@x.com'', ''hr@x.com'']) =
       [[''Laptop'', ''SN1''], [''Dock'', '''']]"
    by code_simp+
  have q: "db_query world_ok ''Ann'' ''Lee'' = Inr (scenario_columns, [])"
    by (simp add: world_ok_def scenario_query_def)
  obtain t f s' where p: "process_employee world_ok (''Ann'', ''Lee'', [''boss@x.com'']) (0, True) no_files
      = (Inr (t, f), s')"
  proof -
    have "fst (process_employee world_ok (''Ann'', ''Lee'', [''boss@x.com'']) (0, True) no_files) = Inr (0, True)"
      by code_simp
    then show ?thesis using that [of 0 True] by (metis prod.collapse)
  qed
  have c: "scenario_columns = [''Description'', ''SerialNo'']" by (simp add: scenario_columns_def)
  from combined_header_once [of world_ok scenario_input ?emps scenario_columns Map.empty
      "''Ann''" "''Lee''" "[''boss@x.com'']" 0 True no_files t f s'] i r sc m a q p c
  show ?thesis by simp
qed

end
